theory Spec2Isabelle
  imports Complex_Main "HOL-Library.AList"
begin

section \<open>MemoryPool: typed object pool\<close>

text \<open>
  The class \<open>MemoryPool\<close> keeps, per type tag, a list of available wrappers and a set of
  active wrappers. A wrapper carries the payload \<open>data\<close>; the payload is compared with
  \<open>===\<close>, so it is modelled by a value of a type \<open>'a\<close> of references compared by
  equality. The contents a reference points to live in an explicit store, since the reset
  routine mutates the payload in place. A JavaScript \<open>Set\<close> iterates in insertion order:
  the active set is a list. \<open>Date.now()\<close> is the argument \<open>now\<close>.
\<close>

datatype content = Arr "nat list" | Obj "(string \<times> nat) list" | Other nat

record 'a pooled =
  data :: 'a
  created :: nat
  lastUsed :: nat

record 'a pool =
  available :: "'a pooled list"
  active :: "'a pooled list"
  pool_created :: nat

record pool_metrics =
  hits :: int
  misses :: int
  creates :: int
  reuses :: int
  cleanups :: int
  totalObjects :: int

record ('t, 'a) memory_pool =
  maxSize :: nat
  pools :: "'t \<rightharpoonup> 'a pool"
  metrics :: pool_metrics
  store :: "'a \<Rightarrow> content"

definition new_pool :: "nat \<Rightarrow> 'a pool" where
  "new_pool now = \<lparr>available = [], active = [], pool_created = now\<rparr>"

text \<open>\<open>getPool\<close> registers an empty pool for a type tag it has not seen.\<close>

definition getPool :: "('t, 'a) memory_pool \<Rightarrow> 't \<Rightarrow> nat \<Rightarrow> ('t, 'a) memory_pool \<times> 'a pool" where
  "getPool mp t now =
     (case pools mp t of
        Some p \<Rightarrow> (mp, p)
      | None \<Rightarrow> (mp\<lparr>pools := (pools mp)(t \<mapsto> new_pool now)\<rparr>, new_pool now))"

text \<open>\<open>defaultReset\<close>: an array is emptied, an object loses its own properties, anything
  else is left alone.\<close>

fun defaultReset :: "content \<Rightarrow> content" where
  "defaultReset (Arr xs) = Arr []"
| "defaultReset (Obj fs) = Obj []"
| "defaultReset (Other v) = Other v"

text \<open>\<open>get\<close>: pop the last available wrapper, or build one from the factory. The factory
  returns a reference and the contents it points to.\<close>

definition get :: "('t, 'a) memory_pool \<Rightarrow> 't \<Rightarrow> ('a \<times> content) \<Rightarrow> nat \<Rightarrow> 'a \<times> ('t, 'a) memory_pool" where
  "get mp t factory now =
     (let (mp1, p) = getPool mp t now in
      if available p \<noteq> [] then
        (let obj = (last (available p))\<lparr>lastUsed := now\<rparr>;
             p' = p\<lparr>available := butlast (available p), active := active p @ [obj]\<rparr>;
             m = metrics mp1
         in (data obj,
             mp1\<lparr>pools := (pools mp1)(t \<mapsto> p'),
                 metrics := m\<lparr>hits := hits m + 1, reuses := reuses m + 1\<rparr>\<rparr>))
      else
        (let obj = \<lparr>data = fst factory, created = now, lastUsed = now\<rparr>;
             p' = p\<lparr>active := active p @ [obj]\<rparr>;
             m = metrics mp1
         in (data obj,
             mp1\<lparr>pools := (pools mp1)(t \<mapsto> p'),
                 metrics := m\<lparr>misses := misses m + 1, creates := creates m + 1,
                              totalObjects := totalObjects m + 1\<rparr>,
                 store := (store mp1)(fst factory := snd factory)\<rparr>)))"

text \<open>\<open>release\<close>: look for the first active wrapper whose payload is the given value;
  without one, return \<open>false\<close>. Otherwise remove it from the active set, reset the
  payload (the caller's routine, or the default one), and put the wrapper back on the
  available list unless that list already holds \<open>maxSize\<close> wrappers.\<close>

definition release ::
  "('t, 'a) memory_pool \<Rightarrow> 't \<Rightarrow> 'a \<Rightarrow> (content \<Rightarrow> content) option \<Rightarrow> nat \<Rightarrow> bool \<times> ('t, 'a) memory_pool" where
  "release mp t d resetFn now =
     (let (mp1, p) = getPool mp t now in
      case find (\<lambda>obj. data obj = d) (active p) of
        None \<Rightarrow> (False, mp1)
      | Some objToRelease \<Rightarrow>
          (let act = remove1 objToRelease (active p);
               reset = (case resetFn of Some f \<Rightarrow> f | None \<Rightarrow> defaultReset);
               st = (store mp1)(d := reset (store mp1 d));
               m = metrics mp1
           in if length (available p) < maxSize mp1 then
                (True, mp1\<lparr>pools := (pools mp1)(t \<mapsto>
                               p\<lparr>available := available p @ [objToRelease\<lparr>lastUsed := now\<rparr>],
                                 active := act\<rparr>),
                           store := st\<rparr>)
              else
                (True, mp1\<lparr>pools := (pools mp1)(t \<mapsto> p\<lparr>active := act\<rparr>),
                           metrics := m\<lparr>totalObjects := totalObjects m - 1\<rparr>,
                           store := st\<rparr>)))"

text \<open>\<open>getStats().poolTypes\<close> is the number of registered pools; here, whether a type tag
  has a pool.\<close>

definition has_pool :: "('t, 'a) memory_pool \<Rightarrow> 't \<Rightarrow> bool" where
  "has_pool mp t = (pools mp t \<noteq> None)"

definition active_payloads :: "('t, 'a) memory_pool \<Rightarrow> 't \<Rightarrow> 'a list" where
  "active_payloads mp t = (case pools mp t of None \<Rightarrow> [] | Some p \<Rightarrow> map data (active p))"

definition empty_pool :: "nat \<Rightarrow> (nat, nat) memory_pool" where
  "empty_pool n = \<lparr>maxSize = n, pools = Map.empty,
     metrics = \<lparr>hits = 0, misses = 0, creates = 0, reuses = 0, cleanups = 0, totalObjects = 0\<rparr>,
     store = (\<lambda>_. Other 0)\<rparr>"

subsection \<open>Release of a value that is not checked out\<close>

lemma find_data_None: "d \<notin> set (map data xs) \<Longrightarrow> find (\<lambda>obj. data obj = d) xs = None"
  by (induction xs) auto

text \<open>
  Claim C10, as stated: a release of a value that is not an active payload under the type
  returns false and leaves the pool entirely unchanged. On a pool manager that has never
  seen the type tag, the call registers an empty pool for it, so the state after the call
  is not the state before.
\<close>

theorem release_unknown_type_counterexample:
  "fst (release (empty_pool 10) 7 3 None 5) = False
   \<and> snd (release (empty_pool 10) 7 3 None 5) \<noteq> empty_pool 10
   \<and> \<not> has_pool (empty_pool 10) 7
   \<and> has_pool (snd (release (empty_pool 10) 7 3 None 5)) 7"
  by (simp add: release_def getPool_def empty_pool_def new_pool_def has_pool_def)

text \<open>
  Claim C10, amended: for every pool state, type tag and value that is not the payload of an
  active wrapper under that type, \<open>release\<close> returns false; when the type tag has a pool the
  state is unchanged as a whole, and when it has none the only change is that an empty pool
  is registered for the tag. In both cases the metrics and the store keep their values, and
  so do the available list and the active set of every pool that existed.
\<close>

theorem release_not_active:
  assumes "d \<notin> set (active_payloads mp t)"
  shows "release mp t d resetFn now =
           (False, if has_pool mp t then mp else mp\<lparr>pools := (pools mp)(t \<mapsto> new_pool now)\<rparr>)"
proof (cases "pools mp t")
  case None
  then show ?thesis
    by (simp add: release_def getPool_def has_pool_def new_pool_def)
next
  case (Some p)
  with assms have "find (\<lambda>obj. data obj = d) (active p) = None"
    by (simp add: active_payloads_def find_data_None)
  with Some show ?thesis
    by (simp add: release_def getPool_def has_pool_def)
qed

theorem release_not_active_witness:
  "release (snd (get (empty_pool 10) 7 (3, Arr [2]) 5)) 7 4 None 6
     = (False, snd (get (empty_pool 10) 7 (3, Arr [2]) 5))
   \<and> active_payloads (snd (get (empty_pool 10) 7 (3, Arr [2]) 5)) 7 = [3]"
proof -
  let ?mp = "snd (get (empty_pool 10) 7 (3, Arr [2]) 5)"
  have a: "active_payloads ?mp 7 = [3]"
    by (simp add: get_def getPool_def empty_pool_def new_pool_def active_payloads_def)
  have h: "(4::nat) \<notin> set (active_payloads ?mp 7)"
    by (simp add: a)
  have p: "has_pool ?mp 7"
    by (simp add: get_def getPool_def empty_pool_def new_pool_def has_pool_def)
  show ?thesis
    using release_not_active [OF h, of None 6] p a by simp
qed


section \<open>Two built-ins of the language\<close>

subsection \<open>The properties a plain object inherits\<close>

text \<open>
  A plain object (\<open>{}\<close>, or an object literal used as a table) inherits the properties of
  \<open>Object.prototype\<close>: eleven functions, and \<open>__proto__\<close>, which reads as the prototype
  object. Reading \<open>table[key]\<close> for a key that is not an own property but is one of these
  names gives the function, or that object, instead of \<open>undefined\<close>.
\<close>

text \<open>The text of a built-in function.\<close>

definition native_function :: "string \<Rightarrow> string" where
  "native_function name = ''function '' @ name @ ''() { [native code] }''"

text \<open>The text of the function a plain object inherits under a name;
  \<open>constructor\<close> is the function \<open>Object\<close>.\<close>

definition inherited_text :: "string \<Rightarrow> string option" where
  "inherited_text w =
     (if w = ''constructor'' then Some (native_function ''Object'')
      else if w \<in> set [''__defineGetter__'', ''__defineSetter__'', ''hasOwnProperty'',
                        ''__lookupGetter__'', ''__lookupSetter__'', ''isPrototypeOf'',
                        ''propertyIsEnumerable'', ''toString'', ''valueOf'', ''toLocaleString'']
      then Some (native_function w)
      else None)"

subsection \<open>Sorting by the difference of two numbers\<close>

text \<open>
  \<open>xs.sort((a, b) => key(b) - key(a))\<close>, where the key of an element is a number or is
  not one (\<open>None\<close>: a function, an object or a text, for which the difference is \<open>NaN\<close>,
  read by the sort as 0). When every key is a number the comparator orders by decreasing
  key, and the sort, which is stable, gives that order. When some key is not a number and
  the keys that are numbers are all equal, the comparator is 0 everywhere and the stable
  sort leaves the array as it is. Otherwise the comparator is not consistent and the
  language leaves the order to the engine: \<open>engine_order\<close>, an argument of the model, is
  that order.
\<close>

definition sort_desc :: "('a list \<Rightarrow> 'a list) \<Rightarrow> ('a \<Rightarrow> nat option) \<Rightarrow> 'a list \<Rightarrow> 'a list" where
  "sort_desc engine_order key xs =
     (if list_all (\<lambda>x. key x \<noteq> None) xs then sort_key (\<lambda>x. - int (the (key x))) xs
      else if length (remdups (List.map_filter key xs)) \<le> 1 then xs
      else engine_order xs)"

section \<open>EventBus: the flush of the event buffer\<close>

text \<open>
  An event of the buffer carries its name, its id and the \<open>priority\<close> property, a string
  (any string: \<open>emitBuffered\<close> copies the caller's options over the default). The comparator
  of \<open>flushBuffer\<close> looks the priority up in the table \<open>priorities\<close> and replaces a falsy
  result, a missing entry or the number 0, by 1. A priority that names an inherited
  property of the table reads a function or an object, which is kept and is not a number.
\<close>

record event =
  ev_name :: string
  ev_id :: nat
  priority :: string

definition priorities :: "(string \<times> nat) list" where
  "priorities = [(''critical'', 3), (''high'', 2), (''normal'', 1), (''low'', 0)]"

text \<open>\<open>priorities[p] || 1\<close>, as a number; \<open>None\<close> when it is not one.\<close>

definition rank :: "string \<Rightarrow> nat option" where
  "rank p =
     (case map_of priorities p of
        Some n \<Rightarrow> Some (if n = 0 then 1 else n)
      | None \<Rightarrow> if p = ''__proto__'' \<or> inherited_text p \<noteq> None then None else Some 1)"

text \<open>\<open>events.sort((a, b) => rank b - rank a)\<close>\<close>

definition sortedEvents :: "(event list \<Rightarrow> event list) \<Rightarrow> event list \<Rightarrow> event list" where
  "sortedEvents engine_order events = sort_desc engine_order (\<lambda>e. rank (priority e)) events"

record event_bus =
  eventBuffer :: "event list"
  bufferSize :: nat
  dispatched :: "event list"

text \<open>\<open>flushBuffer\<close>: the first \<open>bufferSize\<close> events leave the buffer, are sorted and are
  handed to \<open>processEvent\<close> one after the other; \<open>dispatched\<close> logs the order of these
  calls.\<close>

definition flushBuffer :: "(event list \<Rightarrow> event list) \<Rightarrow> event_bus \<Rightarrow> event_bus" where
  "flushBuffer engine_order bus =
     (if eventBuffer bus = [] then bus
      else bus\<lparr>eventBuffer := drop (bufferSize bus) (eventBuffer bus),
               dispatched := dispatched bus @
                 sortedEvents engine_order (take (bufferSize bus) (eventBuffer bus))\<rparr>)"

definition low_then_normal :: event_bus where
  "low_then_normal =
     \<lparr>eventBuffer = [\<lparr>ev_name = ''a'', ev_id = 1, priority = ''low''\<rparr>,
                     \<lparr>ev_name = ''b'', ev_id = 2, priority = ''normal''\<rparr>],
      bufferSize = 100, dispatched = []\<rparr>"

subsection \<open>What the flush guarantees\<close>

text \<open>When every priority of the batch has a number for its rank, the batch is dispatched
  by decreasing rank, and events of one rank in the order of the buffer.\<close>

lemma sortedEvents_by_rank:
  assumes "list_all (\<lambda>e. rank (priority e) \<noteq> None) events"
  shows "sorted (map (\<lambda>e. - int (the (rank (priority e)))) (sortedEvents engine_order events))"
  using assms by (simp add: sortedEvents_def sort_desc_def)

lemma sortedEvents_stable:
  assumes "list_all (\<lambda>e. rank (priority e) \<noteq> None) events"
  shows "filter (\<lambda>e. rank (priority e) = Some r) (sortedEvents engine_order events)
           = filter (\<lambda>e. rank (priority e) = Some r) events"
proof -
  let ?key = "\<lambda>e. - int (the (rank (priority e)))"
  have s: "sortedEvents engine_order events = sort_key ?key events"
    using assms by (simp add: sortedEvents_def sort_desc_def)
  have "filter (\<lambda>e. ?key e = - int r) (sort_key ?key events)
          = filter (\<lambda>e. ?key e = - int r) events"
    by (rule sort_key_stable)
  moreover have "set (sort_key ?key events) = set events" by simp
  moreover have "\<forall>e \<in> set events. (?key e = - int r) = (rank (priority e) = Some r)"
    using assms by (auto simp: list_all_iff)
  ultimately show ?thesis
    unfolding s by (metis (mono_tags, lifting) filter_cong)
qed

text \<open>
  Claim C2: in every flush batch every normal event is dispatched before every low event.
  The table gives \<open>low\<close> the number 0, which \<open>|| 1\<close> turns into 1, the rank of
  \<open>normal\<close>: a low event enqueued before a normal one is dispatched before it.
\<close>

theorem flushBuffer_low_before_normal:
  "map priority (dispatched (flushBuffer engine_order low_then_normal)) = [''low'', ''normal'']
   \<and> rank ''low'' = rank ''normal''"
  by (simp add: flushBuffer_def low_then_normal_def sortedEvents_def sort_desc_def rank_def
      priorities_def)

section \<open>StreamProcessor: worker tasks and backpressure\<close>

text \<open>
  The worker pool is the list of the workers' \<open>jobCount\<close>. A task submitted by
  \<open>executeWorkerTask\<close> has a timer, a message listener on its worker and a promise; the
  map \<open>activeJobs\<close> receives an entry per task id and nothing ever deletes one. The events
  of the model are the submission (the choice of the worker and, after the await of that
  choice, the set-up of the task, taken as one step), the timer callback and the message
  handler.
\<close>

datatype task_error = NoWorker | WorkerTimeout nat | WorkerError string

datatype handle = Pending | Resolved nat | Rejected task_error

record task =
  task_worker :: nat
  timer_armed :: bool
  listening :: bool
  promise :: handle

record stream_processor =
  workerPool :: "nat list"
  tasks :: "(nat \<times> task) list"
  activeJobs :: "(nat \<times> nat) list"
  concurrency :: nat
  backpressureThreshold :: real
  workerTimeout :: nat
  backpressureEvents :: nat
  emitted :: "(real option \<times> nat) list"

text \<open>
  \<open>getAvailableWorker\<close>: \<open>reduce\<close> without an initial value starts from the first worker
  and throws on an empty pool; the callback keeps the worker whose count is below
  \<open>min.jobCount || Infinity\<close>, where a count of 0 is falsy.
\<close>

definition below_min :: "nat \<Rightarrow> nat \<Rightarrow> bool" where
  "below_min w m = (if m = 0 then True else w < m)"

definition getAvailableWorker :: "nat list \<Rightarrow> nat option" where
  "getAvailableWorker ws =
     (if ws = [] then None
      else Some (foldl (\<lambda>m i. if below_min (ws ! i) (ws ! m) then i else m) 0 [1..<length ws]))"

definition releaseWorker :: "nat list \<Rightarrow> nat \<Rightarrow> nat list" where
  "releaseWorker ws i = (if ws ! i > 0 then ws[i := ws ! i - 1] else ws)"

definition executeWorkerTask :: "stream_processor \<Rightarrow> nat \<Rightarrow> stream_processor" where
  "executeWorkerTask sp taskId =
     (case getAvailableWorker (workerPool sp) of
        None \<Rightarrow> sp\<lparr>tasks := AList.update taskId
                  \<lparr>task_worker = 0, timer_armed = False, listening = False,
                   promise = Rejected NoWorker\<rparr> (tasks sp)\<rparr>
      | Some w \<Rightarrow>
          sp\<lparr>workerPool := (workerPool sp)[w := workerPool sp ! w + 1],
             tasks := AList.update taskId
                  \<lparr>task_worker = w, timer_armed = True, listening = True, promise = Pending\<rparr>
                  (tasks sp),
             activeJobs := AList.update taskId w (activeJobs sp)\<rparr>)"

definition settle :: "handle \<Rightarrow> handle \<Rightarrow> handle" where
  "settle h v = (if h = Pending then v else h)"

text \<open>The timer callback: it rejects the promise and does nothing else.\<close>

definition on_timeout :: "stream_processor \<Rightarrow> nat \<Rightarrow> stream_processor" where
  "on_timeout sp taskId =
     (case map_of (tasks sp) taskId of
        None \<Rightarrow> sp
      | Some t \<Rightarrow>
          if timer_armed t then
            sp\<lparr>tasks := AList.update taskId
                 (t\<lparr>timer_armed := False,
                    promise := settle (promise t) (Rejected (WorkerTimeout (workerTimeout sp)))\<rparr>)
                 (tasks sp)\<rparr>
          else sp)"

text \<open>The message handler: it clears the timer, removes itself, releases the worker and
  settles the promise with the result or the error of the message.\<close>

definition on_message :: "stream_processor \<Rightarrow> nat \<Rightarrow> string + nat \<Rightarrow> stream_processor" where
  "on_message sp taskId message =
     (case map_of (tasks sp) taskId of
        None \<Rightarrow> sp
      | Some t \<Rightarrow>
          if listening t then
            sp\<lparr>workerPool := releaseWorker (workerPool sp) (task_worker t),
               tasks := AList.update taskId
                 (t\<lparr>timer_armed := False, listening := False,
                    promise := settle (promise t)
                      (case message of Inr result \<Rightarrow> Resolved result
                                     | Inl msg \<Rightarrow> Rejected (WorkerError msg))\<rparr>)
                 (tasks sp)\<rparr>
          else sp)"

definition promise_of :: "stream_processor \<Rightarrow> nat \<Rightarrow> handle option" where
  "promise_of sp taskId = map_option promise (map_of (tasks sp) taskId)"

definition idle_pool :: "nat \<Rightarrow> stream_processor" where
  "idle_pool n = \<lparr>workerPool = replicate n 0, tasks = [], activeJobs = [], concurrency = n,
     backpressureThreshold = 0.8, workerTimeout = 30000, backpressureEvents = 0, emitted = []\<rparr>"

text \<open>
  \<open>checkBackpressure\<close>: the utilization is the size of \<open>activeJobs\<close> over the configured
  concurrency. With a concurrency of 0 the quotient of the language is \<open>Infinity\<close>, above
  every threshold, or \<open>NaN\<close> for \<open>0 / 0\<close>, above none; the utilization published with the
  event is then \<open>None\<close>.
\<close>

definition utilization :: "stream_processor \<Rightarrow> real option" where
  "utilization sp =
     (if concurrency sp = 0 then None
      else Some (real (length (activeJobs sp)) / real (concurrency sp)))"

definition saturated :: "stream_processor \<Rightarrow> bool" where
  "saturated sp =
     (if concurrency sp = 0 then activeJobs sp \<noteq> []
      else real (length (activeJobs sp)) / real (concurrency sp) > backpressureThreshold sp)"

definition checkBackpressure :: "stream_processor \<Rightarrow> bool \<times> stream_processor" where
  "checkBackpressure sp =
     (if saturated sp then
        (True, sp\<lparr>backpressureEvents := backpressureEvents sp + 1,
                  emitted := emitted sp @ [(utilization sp, length (activeJobs sp))]\<rparr>)
      else (False, sp))"

text \<open>A run of \<open>n\<close> checks with nothing in between.\<close>

fun checks :: "nat \<Rightarrow> stream_processor \<Rightarrow> stream_processor" where
  "checks 0 sp = sp"
| "checks (Suc n) sp = checks n (snd (checkBackpressure sp))"

subsection \<open>The load counter after a timeout\<close>

text \<open>
  Claim C6: a task whose worker does not answer within \<open>workerTimeout\<close> is rejected with a
  timeout error, and the load counter of its worker is back at its value before the
  submission. At a pool of one idle worker, the task 1 is submitted and its timer fires:
  the promise is rejected with the timeout error and the counter of the worker stays at 1.
\<close>

theorem timeout_keeps_load:
  "promise_of (on_timeout (executeWorkerTask (idle_pool 1) 1) 1) 1
     = Some (Rejected (WorkerTimeout 30000))
   \<and> workerPool (idle_pool 1) = [0]
   \<and> workerPool (on_timeout (executeWorkerTask (idle_pool 1) 1) 1) = [1]"
  by (simp add: on_timeout_def executeWorkerTask_def idle_pool_def getAvailableWorker_def
      promise_of_def settle_def)

text \<open>The paths through the message handler do restore the counter.\<close>

lemma message_restores_load:
  "workerPool (on_message (executeWorkerTask (idle_pool 1) 1) 1 m) = [0]"
  by (simp add: on_message_def executeWorkerTask_def idle_pool_def getAvailableWorker_def
      releaseWorker_def)


subsection \<open>Backpressure events\<close>

definition two_jobs :: stream_processor where
  "two_jobs = executeWorkerTask (executeWorkerTask (idle_pool 2) 1) 2"

lemma saturated_checkBackpressure [simp]:
  "saturated (snd (checkBackpressure sp)) = saturated sp"
  by (simp add: checkBackpressure_def saturated_def)

lemma saturated_checks [simp]: "saturated (checks n sp) = saturated sp"
  by (induction n arbitrary: sp) simp_all

text \<open>
  Claim C7, as stated: one backpressure event per saturation transition, and none while the
  utilization stays above the threshold. With two jobs on a pool of concurrency 2 the
  utilization is 1; two checks in a row, with no change of the utilization in between,
  both return true and publish two events.
\<close>

theorem backpressure_twice_counterexample:
  "saturated two_jobs
   \<and> fst (checkBackpressure two_jobs)
   \<and> saturated (snd (checkBackpressure two_jobs))
   \<and> fst (checkBackpressure (snd (checkBackpressure two_jobs)))
   \<and> backpressureEvents (checks 2 two_jobs) = 2
   \<and> emitted (checks 2 two_jobs) = [(Some 1, 2), (Some 1, 2)]"
proof -
  have n: "length (activeJobs two_jobs) = 2" "concurrency two_jobs = 2"
    "backpressureEvents two_jobs = 0" "emitted two_jobs = []"
    "backpressureThreshold two_jobs = 0.8"
    by (simp_all add: two_jobs_def executeWorkerTask_def idle_pool_def
        getAvailableWorker_def below_min_def)
  have c: "checks 2 two_jobs = snd (checkBackpressure (snd (checkBackpressure two_jobs)))"
    by (simp add: numeral_2_eq_2)
  show ?thesis
    unfolding c using n by (simp add: checkBackpressure_def saturated_def utilization_def)
qed

text \<open>
  Claim C7, amended: every call of \<open>checkBackpressure\<close> made while the utilization is above
  the threshold publishes one backpressure event and adds one to the counter, and a call
  made at or below the threshold publishes none: \<open>n\<close> checks in a row publish \<open>n\<close> events
  in a saturated pool and none otherwise.
\<close>

theorem backpressure_event_per_check:
  "backpressureEvents (checks n sp) = backpressureEvents sp + (if saturated sp then n else 0)
   \<and> length (emitted (checks n sp)) = length (emitted sp) + (if saturated sp then n else 0)
   \<and> fst (checkBackpressure sp) = saturated sp"
proof (induction n arbitrary: sp)
  case 0
  show ?case by (simp add: checkBackpressure_def)
next
  case (Suc n)
  let ?sp = "snd (checkBackpressure sp)"
  have one: "backpressureEvents ?sp = backpressureEvents sp + (if saturated sp then 1 else 0)"
    "length (emitted ?sp) = length (emitted sp) + (if saturated sp then 1 else 0)"
    by (simp_all add: checkBackpressure_def)
  have f: "fst (checkBackpressure sp) = saturated sp"
    by (simp add: checkBackpressure_def)
  from Suc [of ?sp]
  have ih: "backpressureEvents (checks n ?sp) = backpressureEvents ?sp + (if saturated sp then n else 0)"
    "length (emitted (checks n ?sp)) = length (emitted ?sp) + (if saturated sp then n else 0)"
    by simp_all
  show ?case
    unfolding checks.simps ih one using f by simp
qed


section \<open>DatabaseManagerOptimized: the connection pool\<close>

text \<open>
  \<open>getConnection\<close> runs on one thread, and other calls run only where it awaits: at
  \<open>await this.createOptimizedConnection()\<close>, between the test of the pool's length and the
  push of the new connection. The model has one action per atomic section: the start of an
  acquire up to that await, the completion of a creation (or its failure), and a release.
  A caller is a number; \<open>granted\<close> logs which connection each resolved caller received.
\<close>

record connection =
  conn_id :: nat
  inUse :: bool
  queries :: nat
  conn_created :: nat
  conn_lastUsed :: nat

record connection_pool =
  maxConnections :: nat
  connections :: "connection list"
  activeConnections :: int
  waitingQueue :: "nat list"
  creating :: "nat list"
  granted :: "(nat \<times> nat) list"
  connectionReuses :: nat

text \<open>\<open>initializeConnectionPool\<close>: \<open>Math.min(2, maxConnections)\<close> idle connections.\<close>

definition initializeConnectionPool :: "nat \<Rightarrow> nat \<Rightarrow> connection_pool" where
  "initializeConnectionPool maxc now =
     \<lparr>maxConnections = maxc,
      connections = map (\<lambda>i. \<lparr>conn_id = i, inUse = False, queries = 0,
                               conn_created = now, conn_lastUsed = now\<rparr>) [0..<min 2 maxc],
      activeConnections = 0, waitingQueue = [], creating = [], granted = [],
      connectionReuses = 0\<rparr>"

text \<open>The index of the first connection that is not in use
  (\<open>connections.find(conn => !conn.inUse)\<close>).\<close>

fun find_idle :: "connection list \<Rightarrow> nat option" where
  "find_idle [] = None"
| "find_idle (c # cs) = (if \<not> inUse c then Some 0 else map_option Suc (find_idle cs))"

text \<open>The section of \<open>getConnection\<close> before the await.\<close>

definition getConnection :: "connection_pool \<Rightarrow> nat \<Rightarrow> nat \<Rightarrow> connection_pool" where
  "getConnection cp caller now =
     (case find_idle (connections cp) of
        Some i \<Rightarrow>
          (let c = connections cp ! i in
           cp\<lparr>connections := (connections cp)
                  [i := c\<lparr>inUse := True, queries := queries c + 1, conn_lastUsed := now\<rparr>],
              activeConnections := activeConnections cp + 1,
              connectionReuses := connectionReuses cp + 1,
              granted := granted cp @ [(caller, conn_id c)]\<rparr>)
      | None \<Rightarrow>
          if length (connections cp) < maxConnections cp
          then cp\<lparr>creating := creating cp @ [caller]\<rparr>
          else cp\<lparr>waitingQueue := waitingQueue cp @ [caller]\<rparr>)"

text \<open>The section after the await: the new connection is pushed, with no second look at
  the length of the pool.\<close>

definition connection_created :: "connection_pool \<Rightarrow> nat \<Rightarrow> nat \<Rightarrow> connection_pool" where
  "connection_created cp caller now =
     (if caller \<in> set (creating cp) then
        cp\<lparr>creating := remove1 caller (creating cp),
           connections := connections cp @
             [\<lparr>conn_id = length (connections cp), inUse = True, queries = 1,
               conn_created = now, conn_lastUsed = now\<rparr>],
           activeConnections := activeConnections cp + 1,
           granted := granted cp @ [(caller, length (connections cp))]\<rparr>
      else cp)"

definition connection_failed :: "connection_pool \<Rightarrow> nat \<Rightarrow> connection_pool" where
  "connection_failed cp caller = cp\<lparr>creating := remove1 caller (creating cp)\<rparr>"

text \<open>\<open>releaseConnection\<close>, on the connection at index \<open>i\<close>: the connection is idle again,
  and goes at once to the caller at the head of the queue when there is one.\<close>

definition releaseConnection :: "connection_pool \<Rightarrow> nat \<Rightarrow> nat \<Rightarrow> connection_pool" where
  "releaseConnection cp i now =
     (if i < length (connections cp) then
        (let c = (connections cp ! i)\<lparr>inUse := False, conn_lastUsed := now\<rparr> in
         case waitingQueue cp of
           [] \<Rightarrow> cp\<lparr>connections := (connections cp)[i := c],
                    activeConnections := activeConnections cp - 1\<rparr>
         | caller # rest \<Rightarrow>
             cp\<lparr>connections := (connections cp)[i := c\<lparr>inUse := True, queries := queries c + 1\<rparr>],
                waitingQueue := rest,
                granted := granted cp @ [(caller, conn_id c)]\<rparr>)
      else cp)"

datatype pool_action = Acquire nat | Created nat | Failed nat | Release nat

fun pool_step :: "connection_pool \<Rightarrow> pool_action \<Rightarrow> connection_pool" where
  "pool_step cp (Acquire caller) = getConnection cp caller 0"
| "pool_step cp (Created caller) = connection_created cp caller 0"
| "pool_step cp (Failed caller) = connection_failed cp caller"
| "pool_step cp (Release i) = releaseConnection cp i 0"

definition pool_run :: "connection_pool \<Rightarrow> pool_action list \<Rightarrow> connection_pool" where
  "pool_run cp acts = foldl pool_step cp acts"

subsection \<open>A saturated pool queues the caller\<close>

lemma find_idle_None: "find_idle cs = None \<longleftrightarrow> (\<forall>c \<in> set cs. inUse c)"
  by (induction cs) auto

lemma acquire_saturated_queued:
  assumes "\<forall>c \<in> set (connections cp). inUse c"
    and "maxConnections cp \<le> length (connections cp)"
  shows "getConnection cp caller now = cp\<lparr>waitingQueue := waitingQueue cp @ [caller]\<rparr>"
proof -
  from assms(1) have "find_idle (connections cp) = None"
    by (simp add: find_idle_None)
  with assms(2) show ?thesis
    by (simp add: getConnection_def)
qed

lemma release_serves_queue_head:
  assumes "i < length (connections cp)" and "waitingQueue cp = caller # rest"
  shows "waitingQueue (releaseConnection cp i now) = rest
         \<and> granted (releaseConnection cp i now) = granted cp @ [(caller, conn_id (connections cp ! i))]
         \<and> length (connections (releaseConnection cp i now)) = length (connections cp)"
  using assms by (simp add: releaseConnection_def)

text \<open>One acquire at a time, each creation completed before the next acquire starts, keeps
  the pool within its bound.\<close>

lemma length_getConnection:
  "length (connections (getConnection cp caller now)) = length (connections cp)"
  by (simp add: getConnection_def Let_def split: option.split)

lemma sequential_acquire_bounded:
  assumes "length (connections cp) \<le> maxConnections cp" and "creating cp = []"
  shows "length (connections (connection_created (getConnection cp caller now) caller now'))
           \<le> maxConnections (connection_created (getConnection cp caller now) caller now')
         \<and> creating (connection_created (getConnection cp caller now) caller now') = []"
proof (cases "find_idle (connections cp)")
  case None
  with assms show ?thesis
    by (simp add: getConnection_def connection_created_def)
next
  case (Some i)
  with assms show ?thesis
    by (simp add: getConnection_def connection_created_def Let_def)
qed

subsection \<open>Two creations in flight\<close>

text \<open>
  Claim C1: for every interleaving of acquires and releases the pool never holds more than
  \<open>maxConnections\<close> connections. With \<open>maxConnections = 3\<close> the pool starts with two
  connections. Four acquires start before any creation completes: the first two take the
  idle connections, the third and the fourth both find two connections, fewer than three,
  and both start a creation. When the two creations complete the pool holds four
  connections.
\<close>

theorem pool_exceeds_maxConnections:
  "length (connections (pool_run (initializeConnectionPool 3 0)
      [Acquire 1, Acquire 2, Acquire 3, Acquire 4, Created 3, Created 4])) = 4
   \<and> maxConnections (pool_run (initializeConnectionPool 3 0)
      [Acquire 1, Acquire 2, Acquire 3, Acquire 4, Created 3, Created 4]) = 3
   \<and> granted (pool_run (initializeConnectionPool 3 0)
      [Acquire 1, Acquire 2, Acquire 3, Acquire 4, Created 3, Created 4])
     = [(1, 0), (2, 1), (3, 2), (4, 3)]"
  by (simp add: pool_run_def initializeConnectionPool_def getConnection_def
      connection_created_def upt_rec)


section \<open>Strings\<close>

text \<open>
  A string of the language is a sequence of 16-bit code units. Where the source lowers the
  case of a text, the model takes texts of code units below 256, the type \<open>string\<close>:
  there \<open>toLowerCase\<close> maps \<open>A\<close> to \<open>Z\<close> and the capital letters \<open>0xC0\<close> to \<open>0xDE\<close>
  (without the sign \<open>0xD7\<close>) to the letter 32 places up, which sets bit 5. Where the source
  searches for a text beyond that range, a string is a list of code units as numbers.
\<close>

definition is_upper :: "char \<Rightarrow> bool" where
  "is_upper c =
     (let n = (of_char c :: nat)
      in (65 \<le> n \<and> n \<le> 90) \<or> (192 \<le> n \<and> n \<le> 222 \<and> n \<noteq> 215))"

fun set_bit5 :: "char \<Rightarrow> char" where
  "set_bit5 (Char b0 b1 b2 b3 b4 b5 b6 b7) = Char b0 b1 b2 b3 b4 True b6 b7"

definition lower_char :: "char \<Rightarrow> char" where
  "lower_char c = (if is_upper c then set_bit5 c else c)"

definition toLowerCase :: "string \<Rightarrow> string" where
  "toLowerCase s = map lower_char s"

fun startsWith :: "'a list \<Rightarrow> 'a list \<Rightarrow> bool" where
  "startsWith s [] = True"
| "startsWith [] (p # ps) = False"
| "startsWith (c # cs) (p # ps) = (c = p \<and> startsWith cs ps)"

text \<open>\<open>s.includes(p)\<close>: \<open>p\<close> occurs in \<open>s\<close> as a contiguous run.\<close>

fun str_includes :: "'a list \<Rightarrow> 'a list \<Rightarrow> bool" where
  "str_includes [] p = (p = [])"
| "str_includes (c # cs) p = (startsWith (c # cs) p \<or> str_includes cs p)"

text \<open>A text of code units from its ASCII spelling.\<close>

definition lit :: "string \<Rightarrow> nat list" where
  "lit s = map of_char s"

text \<open>The decimal spelling of a number, as \<open>String(n)\<close> gives it.\<close>

fun digits :: "nat \<Rightarrow> string" where
  "digits n =
     (if n < 10 then [''0123456789'' ! n]
      else digits (n div 10) @ [''0123456789'' ! (n mod 10)])"

section \<open>PatternDetector: communication style\<close>

text \<open>
  \<open>analyzeCommunicationStyle\<close> reads the content of each message as it is, without lowering
  its case, and looks among others for the emoji U+1F60A, the code units \<open>0xD83D 0xDE0A\<close>.
  A message is its content, \<open>None\<close> when the property is missing.
\<close>

record styles =
  formal :: nat
  informal :: nat
  technical :: nat
  explanatory :: nat

definition content_or_empty :: "'a list option \<Rightarrow> 'a list" where
  "content_or_empty c = (case c of None \<Rightarrow> [] | Some s \<Rightarrow> s)"

definition bump :: "bool \<Rightarrow> nat \<Rightarrow> nat" where
  "bump b n = (if b then n + 1 else n)"

definition style_step :: "styles \<Rightarrow> nat list option \<Rightarrow> styles" where
  "style_step st msg =
     (let content = content_or_empty msg in
      \<lparr>formal = bump (str_includes content (lit ''por favor'')
                        \<or> str_includes content (lit ''obrigado'')) (formal st),
       informal = bump (str_includes content (lit ''!'')
                        \<or> str_includes content [0xD83D, 0xDE0A]) (informal st),
       technical = bump (str_includes content (lit ''```'')
                        \<or> str_includes content (lit ''function'')
                        \<or> str_includes content (lit ''class'')) (technical st),
       explanatory = bump (str_includes content (lit ''porque'')
                        \<or> str_includes content (lit ''exemplo'')
                        \<or> str_includes content (lit ''assim'')) (explanatory st)\<rparr>)"

text \<open>\<open>Object.entries(styles)\<close>, in the order the properties were written.\<close>

definition style_entries :: "styles \<Rightarrow> (string \<times> nat) list" where
  "style_entries st =
     [(''formal'', formal st), (''informal'', informal st),
      (''technical'', technical st), (''explanatory'', explanatory st)]"

text \<open>
  The callback of the reduction receives two entries, each an array of a name and a count,
  and reads \<open>styles[a]\<close> with the array as the key: the key is the array's string, the name,
  a comma and the count. A property that does not exist reads as \<open>undefined\<close>, and
  \<open>undefined > x\<close> is false.
\<close>

definition entry_key :: "string \<times> nat \<Rightarrow> string" where
  "entry_key e = fst e @ '','' @ digits (snd e)"

definition styles_get :: "styles \<Rightarrow> string \<Rightarrow> nat option" where
  "styles_get st k = map_of (style_entries st) k"

definition js_gt :: "nat option \<Rightarrow> nat option \<Rightarrow> bool" where
  "js_gt a b = (case (a, b) of (Some x, Some y) \<Rightarrow> x > y | _ \<Rightarrow> False)"

definition dominant :: "styles \<Rightarrow> string \<times> nat" where
  "dominant st =
     foldl (\<lambda>a b. if js_gt (styles_get st (entry_key a)) (styles_get st (entry_key b)) then a else b)
       (hd (style_entries st)) (tl (style_entries st))"

text \<open>\<open>count / total\<close>: \<open>NaN\<close>, here \<open>None\<close>, when the total is 0 (then the count is 0 too).\<close>

definition share :: "nat \<Rightarrow> nat \<Rightarrow> real option" where
  "share n tot = (if tot = 0 then None else Some (real n / real tot))"

record style_analysis =
  sa_styles :: styles
  sa_total :: nat
  dominantStyle :: "string \<times> nat"
  distribution :: "(string \<times> real option) list"

definition analyzeCommunicationStyle :: "nat list option list \<Rightarrow> style_analysis" where
  "analyzeCommunicationStyle messages =
     (let st = foldl style_step \<lparr>formal = 0, informal = 0, technical = 0, explanatory = 0\<rparr> messages;
          tot = foldl (+) 0 (map snd (style_entries st))
      in \<lparr>sa_styles = st, sa_total = tot, dominantStyle = dominant st,
          distribution = map (\<lambda>(style, n). (style, share n tot)) (style_entries st)\<rparr>)"

subsection \<open>The dominant style\<close>

lemma entry_key_undefined: "styles_get st (entry_key e) = None"
proof -
  have "CHR '','' \<in> set (entry_key e)"
    by (simp add: entry_key_def)
  then have "entry_key e \<noteq> ''formal''" "entry_key e \<noteq> ''informal''"
    "entry_key e \<noteq> ''technical''" "entry_key e \<noteq> ''explanatory''"
    by auto
  then show ?thesis
    by (simp add: styles_get_def style_entries_def)
qed

lemma dominant_is_last_entry: "dominant st = (''explanatory'', explanatory st)"
  by (simp add: dominant_def entry_key_undefined js_gt_def style_entries_def)

text \<open>
  Claim C9: the dominant style reported is a style with the maximal count. For the single
  message \<open>por favor\<close> the counts are 1 for formal and 0 for the three others, and the
  dominant style reported is the entry of explanatory, with its count 0.
\<close>

theorem dominant_not_argmax:
  "sa_styles (analyzeCommunicationStyle [Some (lit ''por favor'')])
     = \<lparr>formal = 1, informal = 0, technical = 0, explanatory = 0\<rparr>
   \<and> dominantStyle (analyzeCommunicationStyle [Some (lit ''por favor'')]) = (''explanatory'', 0)"
  by (simp add: analyzeCommunicationStyle_def dominant_is_last_entry style_step_def
      content_or_empty_def bump_def lit_def Let_def)


section \<open>Problem solving\<close>

text \<open>
  Both analyses read \<open>(msg.content || '').toLowerCase()\<close> of every message, in order. The
  key words are Portuguese; \<open>n\<close>, the letter \<open>0xE3\<close> and \<open>o\<close> spell the first word of
  \<open>nao funciona\<close> with its tilde.
\<close>

definition nao_funciona :: string where
  "nao_funciona = ''n'' @ [CHR 0xE3] @ ''o funciona''"

subsection \<open>\<open>ConversationAnalyzer.analyzeProblemSolving\<close>\<close>

record ps_patterns =
  problemIdentification :: nat
  solutionAttempts :: nat
  successfulResolution :: nat
  iterationCount :: nat

record ps_state =
  patterns :: ps_patterns
  currentProblem :: bool
  attempts :: nat

definition ps_open :: "string \<Rightarrow> ps_state \<Rightarrow> ps_state" where
  "ps_open content s =
     (if str_includes content ''erro'' \<or> str_includes content ''problema''
         \<or> str_includes content nao_funciona
      then (if \<not> currentProblem s
            then s\<lparr>patterns := (patterns s)\<lparr>problemIdentification :=
                                    problemIdentification (patterns s) + 1\<rparr>,
                   currentProblem := True, attempts := 0\<rparr>
            else s)
      else s)"

definition ps_attempt :: "string \<Rightarrow> ps_state \<Rightarrow> ps_state" where
  "ps_attempt content s =
     (if currentProblem s \<and> str_includes content ''```''
      then s\<lparr>patterns := (patterns s)\<lparr>solutionAttempts := solutionAttempts (patterns s) + 1\<rparr>,
             attempts := attempts s + 1\<rparr>
      else s)"

definition ps_resolve :: "string \<Rightarrow> ps_state \<Rightarrow> ps_state" where
  "ps_resolve content s =
     (if currentProblem s \<and> (str_includes content ''funciona'' \<or> str_includes content ''resolvido'')
      then s\<lparr>patterns := (patterns s)\<lparr>successfulResolution :=
                              successfulResolution (patterns s) + 1,
                            iterationCount := iterationCount (patterns s) + attempts s\<rparr>,
             currentProblem := False\<rparr>
      else s)"

definition ps_step :: "ps_state \<Rightarrow> string option \<Rightarrow> ps_state" where
  "ps_step s msg =
     (let content = toLowerCase (content_or_empty msg)
      in ps_resolve content (ps_attempt content (ps_open content s)))"

text \<open>Without messages the result is the empty object, here \<open>None\<close>.\<close>

definition analyzeProblemSolving :: "string option list \<Rightarrow> ps_patterns option" where
  "analyzeProblemSolving messages =
     (if messages = [] then None
      else Some (patterns (foldl ps_step
             \<lparr>patterns = \<lparr>problemIdentification = 0, solutionAttempts = 0,
                          successfulResolution = 0, iterationCount = 0\<rparr>,
              currentProblem = False, attempts = 0\<rparr> messages)))"

subsection \<open>\<open>PatternDetector.identifyProblemPatterns\<close>\<close>

datatype problem_status = StatusOpen | StatusResolved

record problem =
  problem_id :: string
  startIndex :: nat
  indicator :: string
  problem_context :: string
  status :: problem_status
  endIndex :: "nat option"
  duration :: "nat option"

text \<open>\<open>currentProblem\<close> of the source refers to an element of \<open>problems\<close>; here it is
  the index of that element.\<close>

record ip_state =
  problems :: "problem list"
  currentIx :: "nat option"

definition problemIndicators :: "string list" where
  "problemIndicators =
     [''erro'', ''problema'', ''bug'', nao_funciona, ''falha'',
      ''exception'', ''crash'', ''broken'', ''issue'', ''trouble'']"

definition ip_indicator :: "string \<Rightarrow> nat \<Rightarrow> ip_state \<Rightarrow> string \<Rightarrow> ip_state" where
  "ip_indicator content index s ind =
     (if str_includes content ind then
        (if currentIx s = None
         then s\<lparr>problems := problems s @
                   [\<lparr>problem_id = ''problem_'' @ digits (length (problems s) + 1),
                     startIndex = index, indicator = ind,
                     problem_context = take 100 content, status = StatusOpen,
                     endIndex = None, duration = None\<rparr>],
                currentIx := Some (length (problems s))\<rparr>
         else s)
      else s)"

definition ip_resolve :: "string \<Rightarrow> nat \<Rightarrow> ip_state \<Rightarrow> ip_state" where
  "ip_resolve content index s =
     (case currentIx s of
        None \<Rightarrow> s
      | Some i \<Rightarrow>
          if str_includes content ''resolvido'' \<or> str_includes content ''funciona''
          then s\<lparr>problems := (problems s)
                   [i := (problems s ! i)\<lparr>status := StatusResolved, endIndex := Some index,
                            duration := Some (index - startIndex (problems s ! i))\<rparr>],
                 currentIx := None\<rparr>
          else s)"

definition ip_step :: "ip_state \<Rightarrow> string option \<times> nat \<Rightarrow> ip_state" where
  "ip_step s mi =
     (let content = toLowerCase (content_or_empty (fst mi))
      in ip_resolve content (snd mi)
           (foldl (ip_indicator content (snd mi)) s problemIndicators))"

record problem_patterns =
  totalProblems :: nat
  openProblems :: nat
  resolvedProblems :: nat
  pp_problems :: "problem list"

definition identifyProblemPatterns :: "string option list \<Rightarrow> problem_patterns" where
  "identifyProblemPatterns messages =
     (let ps = problems (foldl ip_step \<lparr>problems = [], currentIx = None\<rparr>
                 (zip messages [0..<length messages]))
      in \<lparr>totalProblems = length ps,
          openProblems = length (filter (\<lambda>p. status p = StatusOpen) ps),
          resolvedProblems = length (filter (\<lambda>p. status p = StatusResolved) ps),
          pp_problems = ps\<rparr>)"

definition example_messages :: "string option list" where
  "example_messages =
     [Some ''error happened'', Some ''trying fix'', Some ''trying fix2'', Some ''it works now'']"


subsection \<open>The example conversation\<close>

text \<open>
  Claim C5, as stated: for the messages \<open>error happened\<close>, \<open>trying fix\<close>, \<open>trying fix2\<close>,
  \<open>it works now\<close> the analysis records one episode, opened and closed, with an iteration
  count of 2. No message holds a resolution word (\<open>funciona\<close>, \<open>resolvido\<close>) or a code
  fence, so nothing is closed and nothing is counted as an attempt.
\<close>

theorem example_not_resolved_counterexample:
  "map_option successfulResolution (analyzeProblemSolving example_messages) = Some 0
   \<and> map_option iterationCount (analyzeProblemSolving example_messages) = Some 0
   \<and> resolvedProblems (identifyProblemPatterns example_messages) = 0"
  by code_simp

text \<open>
  Claim C5, amended: for these four messages the problem-solving analysis records one
  problem opened (by \<open>erro\<close>, found in \<open>error\<close>) and never closed, with no solution attempt
  and an iteration count of 0; the pattern detector reports one problem, open, starting at
  message 0.
\<close>

theorem example_one_open_problem:
  "analyzeProblemSolving example_messages
     = Some \<lparr>problemIdentification = 1, solutionAttempts = 0,
             successfulResolution = 0, iterationCount = 0\<rparr>
   \<and> identifyProblemPatterns example_messages
     = \<lparr>totalProblems = 1, openProblems = 1, resolvedProblems = 0,
        pp_problems = [\<lparr>problem_id = ''problem_1'', startIndex = 0, indicator = ''erro'',
                        problem_context = ''error happened'', status = StatusOpen,
                        endIndex = None, duration = None\<rparr>]\<rparr>"
  by code_simp

section \<open>PatternDetector: clustering of the ranked keywords\<close>

text \<open>
  \<open>calculateWordSimilarity\<close>: the number of distinct code units the two words share over
  the number of distinct code units of both. The quotient is a real number here; the
  source's floating-point quotient of two small integers compares with the literal
  \<open>0.6\<close> as the exact quotient does with \<open>3/5\<close>. For two empty words the source
  computes \<open>NaN\<close>, above nothing, and the model 0.
\<close>

definition calculateWordSimilarity :: "string \<Rightarrow> string \<Rightarrow> real" where
  "calculateWordSimilarity word1 word2 =
     real (card (set word1 \<inter> set word2)) / real (card (set word1 \<union> set word2))"

record keyword =
  word :: string
  score :: real

record related_topic =
  r_word :: string
  r_score :: real
  r_similarity :: real

record cluster =
  cluster_id :: string
  mainTopic :: string
  relatedTopics :: "related_topic list"
  confidence :: real
  cluster_size :: nat

text \<open>
  The inner loop, for the seed \<open>w\<close>: it goes through all the keywords and absorbs each
  one that is another word, is not processed yet and is similar to the seed above 0.6.
  It returns the absorbed topics and the processed words.
\<close>

fun absorb :: "string \<Rightarrow> keyword list \<Rightarrow> string list \<Rightarrow> related_topic list \<times> string list" where
  "absorb w [] processed = ([], processed)"
| "absorb w (k # ks) processed =
     (if word k \<noteq> w \<and> word k \<notin> set processed
         \<and> calculateWordSimilarity w (word k) > 0.6
      then (let (rel, processed') = absorb w ks (processed @ [word k])
            in (\<lparr>r_word = word k, r_score = score k,
                 r_similarity = calculateWordSimilarity w (word k)\<rparr> # rel, processed'))
      else absorb w ks processed)"

text \<open>The outer loop: a keyword that is not processed yet opens a cluster.\<close>

fun cluster_loop ::
  "keyword list \<Rightarrow> keyword list \<Rightarrow> cluster list \<Rightarrow> string list \<Rightarrow> cluster list \<times> string list" where
  "cluster_loop keywords [] clusters processed = (clusters, processed)"
| "cluster_loop keywords (k # ks) clusters processed =
     (if word k \<in> set processed then cluster_loop keywords ks clusters processed
      else (let (rel, processed') = absorb (word k) keywords processed
            in cluster_loop keywords ks
                 (clusters @
                    [\<lparr>cluster_id = ''cluster_'' @ digits (length clusters + 1),
                      mainTopic = word k, relatedTopics = rel,
                      confidence = score k, cluster_size = 1 + length rel\<rparr>])
                 (processed' @ [word k])))"

definition clusterTopicsBySimilarity :: "keyword list \<Rightarrow> cluster list" where
  "clusterTopicsBySimilarity keywords = fst (cluster_loop keywords keywords [] [])"

definition members :: "cluster \<Rightarrow> string list" where
  "members c = mainTopic c # map r_word (relatedTopics c)"

definition kw :: "string \<Rightarrow> real \<Rightarrow> keyword" where
  "kw w s = \<lparr>word = w, score = s\<rparr>"


definition example_keywords :: "keyword list" where
  "example_keywords = [kw ''abcd'' 3, kw ''abc'' 2, kw ''bcd'' 1]"

subsection \<open>What a cluster holds\<close>

definition seeded :: "keyword list \<Rightarrow> cluster \<Rightarrow> bool" where
  "seeded keywords c =
     (cluster_size c = 1 + length (relatedTopics c)
      \<and> (\<exists>k \<in> set keywords. word k = mainTopic c \<and> score k = confidence c)
      \<and> (\<forall>r \<in> set (relatedTopics c).
            r_word r \<noteq> mainTopic c
            \<and> calculateWordSimilarity (mainTopic c) (r_word r) > 0.6
            \<and> r_similarity r = calculateWordSimilarity (mainTopic c) (r_word r)
            \<and> (\<exists>k \<in> set keywords. word k = r_word r \<and> score k = r_score r)))"

lemma absorb_related:
  "absorb w ks p = (rel, p') \<Longrightarrow> r \<in> set rel \<Longrightarrow>
     r_word r \<noteq> w \<and> calculateWordSimilarity w (r_word r) > 0.6
     \<and> r_similarity r = calculateWordSimilarity w (r_word r)
     \<and> (\<exists>k \<in> set ks. word k = r_word r \<and> score k = r_score r)"
proof (induction ks arbitrary: p rel p')
  case Nil
  then show ?case by simp
next
  case (Cons k ks)
  show ?case
  proof (cases "word k \<noteq> w \<and> word k \<notin> set p \<and> calculateWordSimilarity w (word k) > 0.6")
    case True
    obtain rel1 p1 where a: "absorb w ks (p @ [word k]) = (rel1, p1)"
      by (cases "absorb w ks (p @ [word k])")
    with True Cons.prems(1)
    have rel: "rel = \<lparr>r_word = word k, r_score = score k,
                 r_similarity = calculateWordSimilarity w (word k)\<rparr> # rel1"
      by simp
    show ?thesis
    proof (cases "r \<in> set rel1")
      case True
      with Cons.IH [OF a] show ?thesis by auto
    next
      case False
      with rel Cons.prems(2)
      have "r = \<lparr>r_word = word k, r_score = score k,
                 r_similarity = calculateWordSimilarity w (word k)\<rparr>"
        by simp
      with True show ?thesis by simp
    qed
  next
    case False
    with Cons.prems(1) have "absorb w ks p = (rel, p')"
      by auto
    from Cons.IH [OF this Cons.prems(2)] show ?thesis by auto
  qed
qed

text \<open>The words absorbed in one pass are distinct, were not processed before and are not
  the seed.\<close>

lemma absorb_fresh:
  "absorb w ks p = (rel, p') \<Longrightarrow>
     distinct (map r_word rel) \<and> set (map r_word rel) \<inter> set p = {} \<and> w \<notin> set (map r_word rel)"
proof (induction ks arbitrary: p rel p')
  case Nil
  then show ?case by simp
next
  case (Cons k ks)
  show ?case
  proof (cases "word k \<noteq> w \<and> word k \<notin> set p \<and> calculateWordSimilarity w (word k) > 0.6")
    case True
    obtain rel1 p1 where a: "absorb w ks (p @ [word k]) = (rel1, p1)"
      by (cases "absorb w ks (p @ [word k])")
    with True Cons.prems
    have rel: "map r_word rel = word k # map r_word rel1"
      by auto
    from Cons.IH [OF a]
    have "distinct (map r_word rel1)" "set (map r_word rel1) \<inter> set (p @ [word k]) = {}"
      "w \<notin> set (map r_word rel1)"
      by simp_all
    with True show ?thesis
      unfolding rel by auto
  next
    case False
    with Cons.prems have "absorb w ks p = (rel, p')"
      by auto
    from Cons.IH [OF this] show ?thesis .
  qed
qed

lemma absorb_processed:
  "absorb w ks p = (rel, p') \<Longrightarrow> set p' = set p \<union> set (map r_word rel)"
proof (induction ks arbitrary: p rel p')
  case Nil
  then show ?case by auto
next
  case (Cons k ks)
  show ?case
  proof (cases "word k \<noteq> w \<and> word k \<notin> set p \<and> calculateWordSimilarity w (word k) > 0.6")
    case True
    obtain rel1 p1 where a: "absorb w ks (p @ [word k]) = (rel1, p1)"
      by (cases "absorb w ks (p @ [word k])")
    with True Cons.prems
    have rel: "rel = \<lparr>r_word = word k, r_score = score k,
                 r_similarity = calculateWordSimilarity w (word k)\<rparr> # rel1" "p' = p1"
      by simp_all
    from Cons.IH [OF a] rel show ?thesis by auto
  next
    case False
    with Cons.prems have "absorb w ks p = (rel, p')"
      by auto
    from Cons.IH [OF this] show ?thesis .
  qed
qed

lemma absorb_complete:
  "absorb w ks p = (rel, p') \<Longrightarrow> k \<in> set ks \<Longrightarrow> word k \<noteq> w \<Longrightarrow>
     calculateWordSimilarity w (word k) > 0.6 \<Longrightarrow> word k \<in> set p'"
proof (induction ks arbitrary: p rel p')
  case Nil
  then show ?case by simp
next
  case (Cons k' ks)
  show ?case
  proof (cases "word k' \<noteq> w \<and> word k' \<notin> set p \<and> calculateWordSimilarity w (word k') > 0.6")
    case True
    obtain rel1 p1 where a: "absorb w ks (p @ [word k']) = (rel1, p1)"
      by (cases "absorb w ks (p @ [word k'])")
    with True Cons.prems(1) have p': "p' = p1"
      by simp
    from absorb_processed [OF a] have sub: "word k' \<in> set p1"
      by simp
    show ?thesis
    proof (cases "k = k'")
      case True
      with sub p' show ?thesis by simp
    next
      case False
      with Cons.prems(2) have "k \<in> set ks" by simp
      from Cons.IH [OF a this Cons.prems(3,4)] p' show ?thesis by simp
    qed
  next
    case False
    with Cons.prems(1) have a: "absorb w ks p = (rel, p')"
      by auto
    show ?thesis
    proof (cases "k = k'")
      case True
      with False Cons.prems(3,4) have "word k \<in> set p" by simp
      with absorb_processed [OF a] show ?thesis by simp
    next
      case False
      with Cons.prems(2) have "k \<in> set ks" by simp
      from Cons.IH [OF a this Cons.prems(3,4)] show ?thesis .
    qed
  qed
qed

text \<open>The invariant of the outer loop: every cluster built so far is seeded, the processed
  words are the members of the clusters, and every keyword similar to a seed above 0.6 is a
  member of the seed's cluster or of an earlier one.\<close>

definition placed :: "keyword list \<Rightarrow> cluster list \<Rightarrow> bool" where
  "placed keywords cs =
     (\<forall>i < length cs. \<forall>k \<in> set keywords.
        word k \<noteq> mainTopic (cs ! i)
        \<and> calculateWordSimilarity (mainTopic (cs ! i)) (word k) > 0.6
        \<longrightarrow> (\<exists>j \<le> i. word k \<in> set (members (cs ! j))))"

definition loop_inv :: "keyword list \<Rightarrow> cluster list \<Rightarrow> string list \<Rightarrow> bool" where
  "loop_inv keywords cs p =
     ((\<forall>c \<in> set cs. seeded keywords c)
      \<and> set p = (\<Union>c \<in> set cs. set (members c))
      \<and> placed keywords cs
      \<and> distinct (concat (map members cs)))"

lemma placed_snoc:
  assumes "placed keywords cs"
    and "\<forall>k \<in> set keywords. word k \<noteq> mainTopic c
           \<and> calculateWordSimilarity (mainTopic c) (word k) > 0.6
           \<longrightarrow> word k \<in> set (members c) \<union> (\<Union>c' \<in> set cs. set (members c'))"
  shows "placed keywords (cs @ [c])"
  unfolding placed_def
proof (intro allI impI ballI)
  fix i k
  assume i: "i < length (cs @ [c])" and k: "k \<in> set keywords"
    and s: "word k \<noteq> mainTopic ((cs @ [c]) ! i)
            \<and> calculateWordSimilarity (mainTopic ((cs @ [c]) ! i)) (word k) > 0.6"
  show "\<exists>j \<le> i. word k \<in> set (members ((cs @ [c]) ! j))"
  proof (cases "i < length cs")
    case True
    with s have "word k \<noteq> mainTopic (cs ! i)
            \<and> calculateWordSimilarity (mainTopic (cs ! i)) (word k) > 0.6"
      by (simp add: nth_append)
    with assms(1) True k obtain j where j: "j \<le> i" "word k \<in> set (members (cs ! j))"
      unfolding placed_def by blast
    with True have "word k \<in> set (members ((cs @ [c]) ! j))"
      by (simp add: nth_append)
    with j(1) show ?thesis by blast
  next
    case False
    with i have ieq: "i = length cs" by simp
    with s have "word k \<noteq> mainTopic c
            \<and> calculateWordSimilarity (mainTopic c) (word k) > 0.6"
      by simp
    with assms(2) k
    have "word k \<in> set (members c) \<union> (\<Union>c' \<in> set cs. set (members c'))"
      by blast
    then show ?thesis
    proof
      assume "word k \<in> set (members c)"
      with ieq have "word k \<in> set (members ((cs @ [c]) ! i))" by simp
      then show ?thesis by blast
    next
      assume "word k \<in> (\<Union>c' \<in> set cs. set (members c'))"
      then obtain c' where "c' \<in> set cs" "word k \<in> set (members c')" by blast
      then obtain j where "j < length cs" "word k \<in> set (members (cs ! j))"
        by (auto simp: in_set_conv_nth)
      with ieq have "j \<le> i" "word k \<in> set (members ((cs @ [c]) ! j))"
        by (simp_all add: nth_append)
      then show ?thesis by blast
    qed
  qed
qed

lemma cluster_loop_inv:
  "loop_inv keywords cs p \<Longrightarrow> set ks \<subseteq> set keywords \<Longrightarrow>
     cluster_loop keywords ks cs p = (cs', p') \<Longrightarrow> loop_inv keywords cs' p'"
proof (induction ks arbitrary: cs p)
  case Nil
  then show ?case by simp
next
  case (Cons k ks)
  show ?case
  proof (cases "word k \<in> set p")
    case True
    with Cons.prems(3) have "cluster_loop keywords ks cs p = (cs', p')" by simp
    with Cons.IH [OF Cons.prems(1)] Cons.prems(2) show ?thesis by simp
  next
    case False
    obtain rel p1 where a: "absorb (word k) keywords p = (rel, p1)"
      by (cases "absorb (word k) keywords p")
    define c where "c = \<lparr>cluster_id = ''cluster_'' @ digits (length cs + 1),
                      mainTopic = word k, relatedTopics = rel,
                      confidence = score k, cluster_size = 1 + length rel\<rparr>"
    from False a Cons.prems(3)
    have run: "cluster_loop keywords ks (cs @ [c]) (p1 @ [word k]) = (cs', p')"
      by (simp add: c_def)
    have kin: "k \<in> set keywords" using Cons.prems(2) by simp
    have mem: "set (members c) = insert (word k) (set (map r_word rel))"
      by (simp add: members_def c_def)
    have p1: "set p1 = set p \<union> set (map r_word rel)"
      by (rule absorb_processed [OF a])
    have sc: "seeded keywords c"
      unfolding seeded_def using kin absorb_related [OF a]
      by (auto simp: c_def)
    have inv1: "\<forall>c \<in> set (cs @ [c]). seeded keywords c"
      using Cons.prems(1) sc by (simp add: loop_inv_def)
    have inv2: "set (p1 @ [word k]) = (\<Union>c \<in> set (cs @ [c]). set (members c))"
      using Cons.prems(1) p1 mem by (auto simp: loop_inv_def)
    have "\<forall>k' \<in> set keywords. word k' \<noteq> mainTopic c
           \<and> calculateWordSimilarity (mainTopic c) (word k') > 0.6
           \<longrightarrow> word k' \<in> set (members c) \<union> (\<Union>c' \<in> set cs. set (members c'))"
    proof (intro ballI impI)
      fix k'
      assume k': "k' \<in> set keywords"
        and s: "word k' \<noteq> mainTopic c \<and> calculateWordSimilarity (mainTopic c) (word k') > 0.6"
      then have "word k' \<noteq> word k" "calculateWordSimilarity (word k) (word k') > 0.6"
        by (simp_all add: c_def)
      from absorb_complete [OF a k' this] have "word k' \<in> set p1" .
      with p1 mem Cons.prems(1)
      show "word k' \<in> set (members c) \<union> (\<Union>c' \<in> set cs. set (members c'))"
        by (auto simp: loop_inv_def)
    qed
    with Cons.prems(1) have inv3: "placed keywords (cs @ [c])"
      by (intro placed_snoc) (simp_all add: loop_inv_def)
    from absorb_fresh [OF a]
    have fresh: "distinct (map r_word rel)" "set (map r_word rel) \<inter> set p = {}"
      "word k \<notin> set (map r_word rel)"
      by simp_all
    have dm: "distinct (members c)"
      using fresh by (simp add: members_def c_def)
    have "set (members c) \<inter> set p = {}"
      using fresh False mem by auto
    then have dj: "set (members c) \<inter> set (concat (map members cs)) = {}"
      using Cons.prems(1) by (auto simp: loop_inv_def)
    have inv4: "distinct (concat (map members (cs @ [c])))"
      using Cons.prems(1) dm dj by (auto simp: loop_inv_def)
    from inv1 inv2 inv3 inv4 have "loop_inv keywords (cs @ [c]) (p1 @ [word k])"
      unfolding loop_inv_def by blast
    from Cons.IH [OF this _ run] Cons.prems(2) show ?thesis by simp
  qed
qed

lemma clusters_inv:
  "loop_inv keywords (clusterTopicsBySimilarity keywords)
     (snd (cluster_loop keywords keywords [] []))"
proof -
  have "loop_inv keywords [] []"
    by (simp add: loop_inv_def placed_def)
  from cluster_loop_inv [OF this subset_refl] show ?thesis
    by (simp add: clusterTopicsBySimilarity_def prod_eq_iff)
qed

text \<open>
  Claim C4, as stated: two terms with a similarity of at least 0.6 always share a cluster,
  and two terms with a similarity below the threshold never do. The words \<open>abc\<close> and \<open>bcd\<close>,
  of similarity 0.5, are both absorbed by the seed \<open>abcd\<close>; the words \<open>abcd\<close> and \<open>abce\<close>,
  of similarity exactly 0.6, open a cluster each.
\<close>

theorem clusters_counterexample:
  "map members (clusterTopicsBySimilarity example_keywords) = [[''abcd'', ''abc'', ''bcd'']]
   \<and> calculateWordSimilarity ''abc'' ''bcd'' < 0.6
   \<and> calculateWordSimilarity ''abcd'' ''abce'' \<ge> 0.6
   \<and> map members (clusterTopicsBySimilarity [kw ''abcd'' 3, kw ''abce'' 2]) = [[''abcd''], [''abce'']]"
  by code_simp

lemma cluster_loop_covers:
  "cluster_loop keywords ks cs p = (cs', p') \<Longrightarrow> set p \<subseteq> set p' \<and> word ` set ks \<subseteq> set p'"
proof (induction ks arbitrary: cs p)
  case Nil
  then show ?case by simp
next
  case (Cons k ks)
  show ?case
  proof (cases "word k \<in> set p")
    case True
    with Cons.prems have "cluster_loop keywords ks cs p = (cs', p')" by simp
    from Cons.IH [OF this] True show ?thesis by auto
  next
    case False
    obtain rel p1 where a: "absorb (word k) keywords p = (rel, p1)"
      by (cases "absorb (word k) keywords p")
    with False Cons.prems obtain c where
      "cluster_loop keywords ks (cs @ [c]) (p1 @ [word k]) = (cs', p')"
      by simp
    from Cons.IH [OF this] absorb_processed [OF a] show ?thesis by auto
  qed
qed

lemma every_keyword_placed:
  assumes "k \<in> set keywords"
  shows "\<exists>c \<in> set (clusterTopicsBySimilarity keywords). word k \<in> set (members c)"
proof -
  obtain cs p where r: "cluster_loop keywords keywords [] [] = (cs, p)"
    by (cases "cluster_loop keywords keywords [] []")
  from cluster_loop_covers [OF r] assms have "word k \<in> set p" by auto
  moreover from clusters_inv [of "keywords"] r
  have "set p = (\<Union>c \<in> set (clusterTopicsBySimilarity keywords). set (members c))"
    by (simp add: loop_inv_def clusterTopicsBySimilarity_def)
  ultimately show ?thesis by auto
qed

text \<open>
  Claim C4, amended: every keyword ends up in a cluster, and no word in two clusters or
  twice in one; every absorbed term is a keyword other than the seed of its cluster and
  has a similarity strictly above 0.6 with that seed (its similarity with the other
  absorbed terms is not examined); every keyword with a similarity strictly above 0.6 with
  the seed of a cluster is in that cluster or in an earlier one; the confidence of a
  cluster is the score of its seed, and its size is 1 plus the number of absorbed terms.
\<close>

theorem clusters_follow_seed:
  "(\<forall>k \<in> set keywords. \<exists>c \<in> set (clusterTopicsBySimilarity keywords). word k \<in> set (members c))
   \<and> distinct (concat (map members (clusterTopicsBySimilarity keywords)))
   \<and> (\<forall>i < length (clusterTopicsBySimilarity keywords).
        seeded keywords (clusterTopicsBySimilarity keywords ! i)
        \<and> (\<forall>k \<in> set keywords.
              word k \<noteq> mainTopic (clusterTopicsBySimilarity keywords ! i)
              \<and> calculateWordSimilarity (mainTopic (clusterTopicsBySimilarity keywords ! i)) (word k) > 0.6
              \<longrightarrow> (\<exists>j \<le> i. word k \<in> set (members (clusterTopicsBySimilarity keywords ! j)))))"
proof -
  from clusters_inv
  have s: "\<forall>c \<in> set (clusterTopicsBySimilarity keywords). seeded keywords c"
    and p: "placed keywords (clusterTopicsBySimilarity keywords)"
    and d: "distinct (concat (map members (clusterTopicsBySimilarity keywords)))"
    by (simp_all add: loop_inv_def)
  have a: "\<forall>k \<in> set keywords. \<exists>c \<in> set (clusterTopicsBySimilarity keywords). word k \<in> set (members c)"
    using every_keyword_placed by blast
  have "\<forall>i < length (clusterTopicsBySimilarity keywords).
        seeded keywords (clusterTopicsBySimilarity keywords ! i)
        \<and> (\<forall>k \<in> set keywords.
              word k \<noteq> mainTopic (clusterTopicsBySimilarity keywords ! i)
              \<and> calculateWordSimilarity (mainTopic (clusterTopicsBySimilarity keywords ! i)) (word k) > 0.6
              \<longrightarrow> (\<exists>j \<le> i. word k \<in> set (members (clusterTopicsBySimilarity keywords ! j))))"
  proof (intro allI impI conjI)
    fix i assume i: "i < length (clusterTopicsBySimilarity keywords)"
    with s show "seeded keywords (clusterTopicsBySimilarity keywords ! i)" by simp
    from p i show "\<forall>k \<in> set keywords.
              word k \<noteq> mainTopic (clusterTopicsBySimilarity keywords ! i)
              \<and> calculateWordSimilarity (mainTopic (clusterTopicsBySimilarity keywords ! i)) (word k) > 0.6
              \<longrightarrow> (\<exists>j \<le> i. word k \<in> set (members (clusterTopicsBySimilarity keywords ! j)))"
      unfolding placed_def by blast
  qed
  with a d show ?thesis by blast
qed

definition two_seeds :: "keyword list" where
  "two_seeds = [kw ''abcd'' 4, kw ''wxyz'' 3, kw ''abc'' 2, kw ''wxyzv'' 1]"

lemma two_seeds_clusters:
  "clusterTopicsBySimilarity two_seeds
     = [\<lparr>cluster_id = ''cluster_1'', mainTopic = ''abcd'',
         relatedTopics = [\<lparr>r_word = ''abc'', r_score = 2, r_similarity = 3 / 4\<rparr>],
         confidence = 4, cluster_size = 2\<rparr>,
        \<lparr>cluster_id = ''cluster_2'', mainTopic = ''wxyz'',
         relatedTopics = [\<lparr>r_word = ''wxyzv'', r_score = 1, r_similarity = 4 / 5\<rparr>],
         confidence = 3, cluster_size = 2\<rparr>]"
  by code_simp

theorem clusters_follow_seed_witness:
  "map members (clusterTopicsBySimilarity two_seeds) = [[''abcd'', ''abc''], [''wxyz'', ''wxyzv'']]
   \<and> (\<exists>c \<in> set (clusterTopicsBySimilarity two_seeds). ''wxyzv'' \<in> set (members c))
   \<and> distinct (concat (map members (clusterTopicsBySimilarity two_seeds)))
   \<and> seeded two_seeds (clusterTopicsBySimilarity two_seeds ! 1)"
proof -
  have k: "kw ''wxyzv'' 1 \<in> set two_seeds"
    by (simp add: two_seeds_def)
  have w: "word (kw ''wxyzv'' 1) = ''wxyzv''"
    by (simp add: kw_def)
  have l: "1 < length (clusterTopicsBySimilarity two_seeds)"
    by (simp add: two_seeds_clusters)
  have m: "map members (clusterTopicsBySimilarity two_seeds) = [[''abcd'', ''abc''], [''wxyz'', ''wxyzv'']]"
    by (simp add: two_seeds_clusters members_def)
  from clusters_follow_seed [of two_seeds] k w l m show ?thesis
    by (metis (no_types, lifting))
qed

section \<open>Plain objects used as dictionaries\<close>

text \<open>
  The analytic routines count words in plain objects (\<open>{}\<close>) keyed by the word. Such an
  object is the list of its own properties in the order of their creation. Its
  enumeration (\<open>Object.keys\<close>, \<open>Object.entries\<close>) gives first the keys that are array
  indices, the decimal spellings of the numbers below \<open>2^32 - 1\<close>, in increasing order,
  then the other keys in the order of creation.

  For a word that is the name of an inherited function, \<open>counts[word] || 0\<close> reads the
  function instead of 0, and adding 1 to a function gives the text of the function
  followed by \<open>1\<close>: the cell of such a word holds a text, not a count. The property
  \<open>__proto__\<close> reads as the prototype object, and an assignment of a text to it is
  ignored: this word never gets a cell.
\<close>

datatype cell = Count nat | Text string

definition is_digit :: "char \<Rightarrow> bool" where
  "is_digit c = (48 \<le> (of_char c :: int) \<and> (of_char c :: int) \<le> 57)"

definition decimal_value :: "string \<Rightarrow> int" where
  "decimal_value s = foldl (\<lambda>n c. 10 * n + (of_char c - 48)) 0 s"

definition array_index :: "string \<Rightarrow> int option" where
  "array_index s =
     (if s \<noteq> [] \<and> list_all is_digit s \<and> (s = ''0'' \<or> hd s \<noteq> CHR ''0'')
         \<and> decimal_value s < 4294967295
      then Some (decimal_value s) else None)"

definition obj_entries :: "(string \<times> 'v) list \<Rightarrow> (string \<times> 'v) list" where
  "obj_entries obj =
     sort_key (\<lambda>e. the (array_index (fst e))) (filter (\<lambda>e. array_index (fst e) \<noteq> None) obj)
     @ filter (\<lambda>e. array_index (fst e) = None) obj"

text \<open>\<open>counts[word] = (counts[word] || 0) + 1\<close>: an own count grows by one, an own text
  gets a \<open>1\<close> appended; a word without a cell starts at 1, or at the inherited text
  followed by \<open>1\<close>.\<close>

definition count_word :: "(string \<times> cell) list \<Rightarrow> string \<Rightarrow> (string \<times> cell) list" where
  "count_word counts w =
     (case map_of counts w of
        Some (Count n) \<Rightarrow> AList.update w (Count (n + 1)) counts
      | Some (Text s) \<Rightarrow> AList.update w (if s = [] then Count 1 else Text (s @ ''1'')) counts
      | None \<Rightarrow>
          if w = ''__proto__'' then counts
          else (case inherited_text w of
                  Some s \<Rightarrow> AList.update w (Text (s @ ''1'')) counts
                | None \<Rightarrow> AList.update w (Count 1) counts))"

section \<open>The worker's task types\<close>

text \<open>
  The worker reads the clock (\<open>new Date().toISOString()\<close>) in each of the three tasks and
  draws a random number (\<open>Math.random()\<close>) in the third. Both are arguments of the model.
\<close>

record env =
  clock :: string
  random :: real

record message =
  sender :: string
  content :: "string option"

record conversation =
  conv_id :: string
  messages :: "message list option"

record conversation_analysis =
  ca_id :: string
  ca_messageCount :: nat
  participants :: "string list"
  topics :: "string list"
  sentiment :: string
  complexity :: nat
  ca_timestamp :: string

text \<open>\<open>[...new Set(xs)]\<close>: the distinct elements in the order of their first occurrence.\<close>

definition uniq :: "'a list \<Rightarrow> 'a list" where
  "uniq xs = rev (remdups (rev xs))"

text \<open>\<open>xs.join(' ')\<close>, where a missing content gives the empty text.\<close>

fun join_space :: "string list \<Rightarrow> string" where
  "join_space [] = []"
| "join_space [x] = x"
| "join_space (x # y # ys) = x @ '' '' @ join_space (y # ys)"

text \<open>
  \<open>content.match(/\b\w{4,}\b/g)\<close>: the maximal runs of word characters (letters of the
  English alphabet, digits and the underscore) that are at least 4 long.
\<close>

definition is_word_char :: "char \<Rightarrow> bool" where
  "is_word_char c =
     (let n = (of_char c :: nat)
      in (48 \<le> n \<and> n \<le> 57) \<or> (65 \<le> n \<and> n \<le> 90) \<or> n = 95 \<or> (97 \<le> n \<and> n \<le> 122))"

function word_runs :: "string \<Rightarrow> string list" where
  "word_runs [] = []"
| "word_runs (c # cs) =
     (if is_word_char c
      then takeWhile is_word_char (c # cs) # word_runs (dropWhile is_word_char cs)
      else word_runs cs)"
  by pat_completeness auto
termination
  by (relation "measure length") (simp_all add: length_dropWhile_le le_imp_less_Suc)

definition match_words :: "string \<Rightarrow> string list" where
  "match_words s = filter (\<lambda>w. length w \<ge> 4) (word_runs s)"

text \<open>\<open>entries.sort(([,a], [,b]) => b - a)\<close>: the key of an entry is its count; a text is
  not a number.\<close>

fun count_of :: "cell \<Rightarrow> nat option" where
  "count_of (Count n) = Some n"
| "count_of (Text s) = None"

definition sort_by_count ::
  "((string \<times> cell) list \<Rightarrow> (string \<times> cell) list) \<Rightarrow> (string \<times> cell) list \<Rightarrow> (string \<times> cell) list" where
  "sort_by_count engine_order entries = sort_desc engine_order (\<lambda>e. count_of (snd e)) entries"

definition top5 ::
  "((string \<times> cell) list \<Rightarrow> (string \<times> cell) list) \<Rightarrow> (string \<times> cell) list \<Rightarrow> string list" where
  "top5 engine_order counts = map fst (take 5 (sort_by_count engine_order (obj_entries counts)))"

definition analyzeConversation ::
  "((string \<times> cell) list \<Rightarrow> (string \<times> cell) list) \<Rightarrow> conversation \<Rightarrow> env \<Rightarrow> conversation_analysis" where
  "analyzeConversation engine_order conversation e =
     (case messages conversation of
        None \<Rightarrow>
          \<lparr>ca_id = conv_id conversation, ca_messageCount = 0, participants = [], topics = [],
           sentiment = ''neutral'', complexity = 0, ca_timestamp = clock e\<rparr>
      | Some ms \<Rightarrow>
          (let ps = uniq (map sender ms);
               keywords = match_words
                  (toLowerCase (join_space (map (\<lambda>m. content_or_empty (content m)) ms)))
           in \<lparr>ca_id = conv_id conversation, ca_messageCount = length ms,
                participants = ps,
                topics = top5 engine_order (foldl count_word [] keywords),
                sentiment = ''neutral'',
                complexity = min 10 (length keywords div 10 + length ps),
                ca_timestamp = clock e\<rparr>))"

text \<open>\<open>detectPatterns\<close>: the payload gives a conversation id and, possibly, a message count
  and a list of topics.\<close>

record pattern_data =
  pd_conversationId :: string
  pd_messageCount :: "nat option"
  pd_topics :: "string list option"

record detected_pattern =
  dp_type :: string
  dp_description :: string
  dp_confidence :: real

record pattern_result =
  pr_conversationId :: string
  pr_patterns :: "detected_pattern list"
  pr_confidence :: real
  pr_timestamp :: string

definition detectPatterns :: "pattern_data \<Rightarrow> env \<Rightarrow> pattern_result" where
  "detectPatterns d e =
     (let p1 = (case pd_messageCount d of
                  Some n \<Rightarrow> if n > 5
                            then [\<lparr>dp_type = ''conversation_length'',
                                   dp_description = ''Conversa extensa detectada'',
                                   dp_confidence = 0.8\<rparr>]
                            else []
                | None \<Rightarrow> []);
          p2 = (case pd_topics d of
                  Some ts \<Rightarrow> if ''error'' \<in> set ts
                             then [\<lparr>dp_type = ''troubleshooting'',
                                    dp_description = ''Sess'' @ [CHR 0xE3] @ ''o de debugging detectada'',
                                    dp_confidence = 0.7\<rparr>]
                             else []
                | None \<Rightarrow> []);
          ps = p1 @ p2
      in \<lparr>pr_conversationId = pd_conversationId d, pr_patterns = ps,
          pr_confidence = (if length ps > 0
                           then foldl (\<lambda>s p. s + dp_confidence p) 0 ps / real (length ps) else 0),
          pr_timestamp = clock e\<rparr>)"

record insight =
  in_type :: string
  in_description :: string
  in_score :: real
  recommendations :: "string list"

record insight_result =
  ir_conversationId :: string
  insights :: "insight list"
  ir_timestamp :: string

text \<open>\<open>generateInsights\<close>: the score is \<open>Math.random() * 10\<close>, a product of two doubles that
  the engine rounds to a double; \<open>times10\<close>, an argument of the model, is this product
  as a function of the draw.\<close>

definition generateInsights :: "(real \<Rightarrow> real) \<Rightarrow> string \<Rightarrow> env \<Rightarrow> insight_result" where
  "generateInsights times10 conversationId e =
     \<lparr>ir_conversationId = conversationId,
      insights = [\<lparr>in_type = ''productivity'',
                   in_description = ''An'' @ [CHR 0xE1] @ ''lise de produtividade baseada na conversa'',
                   in_score = times10 (random e), recommendations = []\<rparr>],
      ir_timestamp = clock e\<rparr>"

definition example_conversation :: conversation where
  "example_conversation =
     \<lparr>conv_id = ''c1'',
      messages = Some [\<lparr>sender = ''ana'', content = Some ''Performance issue with 2024 database''\<rparr>,
                       \<lparr>sender = ''bob'', content = Some ''fixed the database index''\<rparr>,
                       \<lparr>sender = ''ana'', content = None\<rparr>]\<rparr>"

definition constructor_conversation :: conversation where
  "constructor_conversation =
     \<lparr>conv_id = ''c2'',
      messages = Some [\<lparr>sender = ''ana'', content = Some ''the Constructor fails''\<rparr>,
                       \<lparr>sender = ''bob'', content = Some ''__proto__ again''\<rparr>]\<rparr>"

subsection \<open>What a result depends on\<close>

lemma analysis_timestamp: "ca_timestamp (analyzeConversation engine_order c e) = clock e"
  by (simp add: analyzeConversation_def Let_def split: option.split)

text \<open>
  Claim C8, as stated: each task type is a deterministic function of its payload, so two
  runs on the same payload give the same result. Two runs of \<open>generate_insights\<close> on the
  payload of conversation \<open>c1\<close> with the random draws 0.25 and 0.5, whose products with
  10 are exact, give different scores; two runs of \<open>analyze_conversation\<close> and two
  runs of \<open>detect_patterns\<close> at different times give different results.
\<close>

theorem tasks_not_deterministic_counterexample:
  "generateInsights (\<lambda>r. r * 10) ''c1'' \<lparr>clock = ''t'', random = 1 / 4\<rparr>
     \<noteq> generateInsights (\<lambda>r. r * 10) ''c1'' \<lparr>clock = ''t'', random = 1 / 2\<rparr>
   \<and> analyzeConversation (\<lambda>entries. entries) example_conversation \<lparr>clock = ''t1'', random = 0\<rparr>
     \<noteq> analyzeConversation (\<lambda>entries. entries) example_conversation \<lparr>clock = ''t2'', random = 0\<rparr>
   \<and> detectPatterns \<lparr>pd_conversationId = ''c1'', pd_messageCount = Some 6, pd_topics = None\<rparr>
         \<lparr>clock = ''t1'', random = 0\<rparr>
     \<noteq> detectPatterns \<lparr>pd_conversationId = ''c1'', pd_messageCount = Some 6, pd_topics = None\<rparr>
         \<lparr>clock = ''t2'', random = 0\<rparr>"
proof -
  have "ca_timestamp (analyzeConversation (\<lambda>entries. entries) example_conversation
            \<lparr>clock = ''t1'', random = 0\<rparr>)
        \<noteq> ca_timestamp (analyzeConversation (\<lambda>entries. entries) example_conversation
            \<lparr>clock = ''t2'', random = 0\<rparr>)"
    by (simp add: analysis_timestamp)
  then have "analyzeConversation (\<lambda>entries. entries) example_conversation \<lparr>clock = ''t1'', random = 0\<rparr>
     \<noteq> analyzeConversation (\<lambda>entries. entries) example_conversation \<lparr>clock = ''t2'', random = 0\<rparr>"
    by metis
  then show ?thesis
    by (simp add: generateInsights_def detectPatterns_def)
qed

text \<open>
  Claim C8, amended: each of the three task types computes its result from its payload,
  except for the field \<open>timestamp\<close>, which is the reading of the worker's clock at the run,
  and, for \<open>generate_insights\<close>, the score of the insight, which is the product of a random
  draw and 10: for every payload, the result of a run is the result of any other run on
  the same payload with these fields replaced.
\<close>

theorem tasks_depend_on_clock_and_random:
  "analyzeConversation engine_order c e'
     = (analyzeConversation engine_order c e)\<lparr>ca_timestamp := clock e'\<rparr>
   \<and> detectPatterns d e' = (detectPatterns d e)\<lparr>pr_timestamp := clock e'\<rparr>
   \<and> generateInsights times10 i e' = (generateInsights times10 i e)
        \<lparr>insights := map (\<lambda>x. x\<lparr>in_score := times10 (random e')\<rparr>)
                        (insights (generateInsights times10 i e)),
         ir_timestamp := clock e'\<rparr>
   \<and> ca_timestamp (analyzeConversation engine_order c e) = clock e
   \<and> pr_timestamp (detectPatterns d e) = clock e
   \<and> ir_timestamp (generateInsights times10 i e) = clock e
   \<and> map in_score (insights (generateInsights times10 i e)) = [times10 (random e)]"
proof -
  have "analyzeConversation engine_order c e'
          = (analyzeConversation engine_order c e)\<lparr>ca_timestamp := clock e'\<rparr>"
    by (simp add: analyzeConversation_def Let_def split: option.split)
  moreover have "detectPatterns d e' = (detectPatterns d e)\<lparr>pr_timestamp := clock e'\<rparr>"
    by (simp add: detectPatterns_def Let_def)
  moreover have "generateInsights times10 i e' = (generateInsights times10 i e)
        \<lparr>insights := map (\<lambda>x. x\<lparr>in_score := times10 (random e')\<rparr>)
                        (insights (generateInsights times10 i e)),
         ir_timestamp := clock e'\<rparr>"
    by (simp add: generateInsights_def)
  moreover have "ca_timestamp (analyzeConversation engine_order c e) = clock e"
    by (rule analysis_timestamp)
  moreover have "pr_timestamp (detectPatterns d e) = clock e"
    by (simp add: detectPatterns_def Let_def)
  moreover have "ir_timestamp (generateInsights times10 i e) = clock e"
    "map in_score (insights (generateInsights times10 i e)) = [times10 (random e)]"
    by (simp_all add: generateInsights_def)
  ultimately show ?thesis by blast
qed

text \<open>A payload with the words \<open>constructor\<close> and \<open>__proto__\<close>: the first is a topic, with
  a text in its cell, and the second is counted as a key word but gets no cell. The three
  cells that remain hold one text and two equal counts.\<close>

lemma constructor_topics:
  "topics (analyzeConversation engine_order constructor_conversation e)
     = [''constructor'', ''fails'', ''again'']
   \<and> complexity (analyzeConversation engine_order constructor_conversation e) = 2"
  by code_simp

section \<open>PatternDetector: keyword extraction\<close>

text \<open>
  \<open>doc.split(/\s+/)\<close> cuts a document at every maximal run of white space; a document
  that starts or ends with white space gives an empty first or last piece. Among the code
  units below 256 the white space is the tab, the line feed, the vertical tab, the form
  feed, the carriage return, the space and the no-break space.
\<close>

definition is_space :: "char \<Rightarrow> bool" where
  "is_space c = ((of_char c :: nat) \<in> {9, 10, 11, 12, 13, 32, 160})"

function split_ws :: "string \<Rightarrow> string list" where
  "split_ws [] = [[]]"
| "split_ws (c # cs) =
     (if is_space c then [] # split_ws (dropWhile is_space cs)
      else (case split_ws cs of [] \<Rightarrow> [[c]] | t # ts \<Rightarrow> (c # t) # ts))"
  by pat_completeness auto
termination
  by (relation "measure length") (simp_all add: length_dropWhile_le le_imp_less_Suc)

text \<open>The words of a document that count: the pieces longer than 2.\<close>

definition tokens :: "string \<Rightarrow> string list" where
  "tokens doc = filter (\<lambda>w. length w > 2) (split_ws doc)"

section \<open>Term frequency and document frequency\<close>

text \<open>
  The frequencies are doubles. \<open>Quotient c n\<close> is the double \<open>c / n\<close> of two counts,
  \<open>Log x\<close> is what \<open>Math.log\<close> gives at \<open>x\<close>, and \<open>NaN\<close> is the double that is not
  a number. A text divided by a count, or dividing a count, is \<open>NaN\<close>, and so is its
  logarithm.
\<close>

datatype number = Quotient nat nat | Log number | NaN

fun cell_over :: "cell \<Rightarrow> nat \<Rightarrow> number" where
  "cell_over (Count c) n = Quotient c n"
| "cell_over (Text s) n = NaN"

fun log_over :: "nat \<Rightarrow> cell \<Rightarrow> number" where
  "log_over n (Count c) = Log (Quotient n c)"
| "log_over n (Text s) = NaN"

text \<open>\<open>calculateTF\<close>: per document, the cell of each word over the number of words.\<close>

definition doc_tf :: "string \<Rightarrow> (string \<times> number) list" where
  "doc_tf doc =
     (let words = tokens doc;
          wordCount = foldl count_word [] words;
          totalWords = length words
      in map (\<lambda>e. (fst e, cell_over (snd e) totalWords)) wordCount)"

definition calculateTF :: "string list \<Rightarrow> (string \<times> number) list list" where
  "calculateTF documents = map doc_tf documents"

text \<open>\<open>calculateIDF\<close>: the words of each document are counted once (\<open>new Set\<close>); then, in
  the order of enumeration, the logarithm of the number of documents over the cell.\<close>

definition doc_frequency :: "string list \<Rightarrow> (string \<times> cell) list" where
  "doc_frequency documents =
     foldl (\<lambda>wordCount doc. foldl count_word wordCount (uniq (tokens doc))) [] documents"

definition calculateIDF :: "string list \<Rightarrow> (string \<times> number) list" where
  "calculateIDF documents =
     map (\<lambda>e. (fst e, log_over (length documents) (snd e))) (obj_entries (doc_frequency documents))"

text \<open>The documents of \<open>extractKeywordsTFIDF\<close>: the lowered contents of the messages.\<close>

definition documents_of :: "message list \<Rightarrow> string list" where
  "documents_of ms = map (\<lambda>m. toLowerCase (content_or_empty (content m))) ms"

definition constructor_messages :: "message list" where
  "constructor_messages =
     [\<lparr>sender = ''ana'', content = Some ''The constructor fails''\<rparr>,
      \<lparr>sender = ''bob'', content = Some ''fails again''\<rparr>]"

subsection \<open>Words that are not inherited names\<close>

lemma set_alist_update: "set (AList.update k v al) \<subseteq> insert (k, v) (set al)"
  by (induction al) auto

lemma map_of_map_cells:
  "map_of (map (\<lambda>e. (fst e, g (snd e))) obj) w = map_option g (map_of obj w)"
  by (induction obj) auto

definition plain_word :: "string \<Rightarrow> bool" where
  "plain_word w = (w \<noteq> ''__proto__'' \<and> inherited_text w = None)"

lemma count_word_plain:
  assumes "plain_word w" and "list_all (\<lambda>e. count_of (snd e) \<noteq> None) counts"
  shows "map_of (count_word counts w) w
           = Some (Count (case map_of counts w of Some (Count n) \<Rightarrow> n + 1 | _ \<Rightarrow> 1))"
    and "v \<noteq> w \<Longrightarrow> map_of (count_word counts w) v = map_of counts v"
    and "list_all (\<lambda>e. count_of (snd e) \<noteq> None) (count_word counts w)"
proof -
  have t: "map_of counts w \<noteq> Some (Text s)" for s
  proof
    assume "map_of counts w = Some (Text s)"
    then have "(w, Text s) \<in> set counts" by (rule map_of_SomeD)
    with assms(2) show False by (auto simp: list_all_iff)
  qed
  show "map_of (count_word counts w) w
           = Some (Count (case map_of counts w of Some (Count n) \<Rightarrow> n + 1 | _ \<Rightarrow> 1))"
    using assms(1) t
    by (auto simp: count_word_def plain_word_def update_conv' split: option.split cell.split)
  show "v \<noteq> w \<Longrightarrow> map_of (count_word counts w) v = map_of counts v"
    by (auto simp: count_word_def update_conv' split: option.split cell.split)
  have "list_all (\<lambda>e. count_of (snd e) \<noteq> None) (AList.update w (Count n) counts)" for n
  proof -
    have "set (AList.update w (Count n) counts) \<subseteq> insert (w, Count n) (set counts)"
      by (rule set_alist_update)
    with assms(2) show ?thesis
      by (fastforce simp: list_all_iff)
  qed
  then show "list_all (\<lambda>e. count_of (snd e) \<noteq> None) (count_word counts w)"
    using assms(1) t
    by (simp add: count_word_def plain_word_def split: option.split cell.split)
qed

lemma counts_plain:
  assumes "list_all plain_word ws" and "list_all (\<lambda>e. count_of (snd e) \<noteq> None) counts"
  shows "list_all (\<lambda>e. count_of (snd e) \<noteq> None) (foldl count_word counts ws)
    \<and> map_of (foldl count_word counts ws) v
        = (if v \<in> set ws
           then Some (Count (count_list ws v + (case map_of counts v of Some (Count n) \<Rightarrow> n | _ \<Rightarrow> 0)))
           else map_of counts v)"
  using assms
proof (induction ws arbitrary: counts)
  case Nil
  then show ?case by simp
next
  case (Cons w ws)
  from Cons.prems have pw: "plain_word w" and pws: "list_all plain_word ws" by simp_all
  note cw = count_word_plain [OF pw Cons.prems(2)]
  from Cons.IH [OF pws cw(3)] have
    ih: "list_all (\<lambda>e. count_of (snd e) \<noteq> None) (foldl count_word (count_word counts w) ws)"
      "map_of (foldl count_word (count_word counts w) ws) v
        = (if v \<in> set ws
           then Some (Count (count_list ws v
                  + (case map_of (count_word counts w) v of Some (Count n) \<Rightarrow> n | _ \<Rightarrow> 0)))
           else map_of (count_word counts w) v)"
    by simp_all
  show ?case
  proof (cases "v = w")
    case True
    with ih cw(1) show ?thesis
      by (auto split: option.split cell.split)
  next
    case False
    with ih cw(2) [of v] show ?thesis
      by auto
  qed
qed

text \<open>For a document of plain words the term frequency of a word is the quotient of its
  number of occurrences and the number of words.\<close>

lemma doc_tf_plain:
  assumes "list_all plain_word (tokens doc)"
  shows "map_of (doc_tf doc) w
           = (if w \<in> set (tokens doc)
              then Some (Quotient (count_list (tokens doc) w) (length (tokens doc)))
              else None)"
proof -
  let ?counts = "foldl count_word [] (tokens doc)"
  let ?n = "length (tokens doc)"
  have m: "map_of (map (\<lambda>e. (fst e, cell_over (snd e) ?n)) ?counts) w
             = map_option (\<lambda>c. cell_over c ?n) (map_of ?counts w)"
    by (rule map_of_map_cells)
  from counts_plain [OF assms, of "[]" w]
  have "map_of ?counts w
          = (if w \<in> set (tokens doc) then Some (Count (count_list (tokens doc) w)) else None)"
    by simp
  with m show ?thesis
    by (simp add: doc_tf_def Let_def)
qed

subsection \<open>A word that is an inherited name\<close>

text \<open>
  Claim C3: for every non-empty message list the term frequency of a word in a message is
  its number of occurrences over the number of words of the message, and its inverse
  document frequency is the logarithm of the number of messages over the number of
  messages that hold it. In the messages \<open>The constructor fails\<close> and \<open>fails again\<close> the
  word \<open>constructor\<close> occurs once among the three words of the first message, the one
  message of two that holds it: its term frequency there and its inverse document
  frequency are \<open>NaN\<close>.
\<close>

theorem constructor_frequency_nan:
  "calculateTF (documents_of constructor_messages)
     = [[(''the'', Quotient 1 3), (''constructor'', NaN), (''fails'', Quotient 1 3)],
        [(''fails'', Quotient 1 2), (''again'', Quotient 1 2)]]
   \<and> calculateIDF (documents_of constructor_messages)
     = [(''the'', Log (Quotient 2 1)), (''constructor'', NaN),
        (''fails'', Log (Quotient 2 2)), (''again'', Log (Quotient 2 1))]"
  by code_simp

end
